theory Spec2Isabelle
  imports Main "HOL-Library.Word" "HOL-Library.Signed_Division"
begin

section \<open>The table timer sketch (timer-sketch.ino)\<close>

text \<open>
  The sketch is a single cooperative loop over global variables. The embedding threads one
  record through every function. C \<open>int\<close> variables are HOL integers: all values the sketch
  computes stay far inside the 32-bit range, and C's truncating \<open>/\<close> and \<open>%\<close> are
  \<open>sdiv\<close> and \<open>smod\<close>. The \<open>unsigned long\<close> millisecond counters are 32-bit words, so
  subtraction and \<open>+=\<close> wrap as on the board, and comparisons are unsigned.

  The hardware is part of the state: \<open>millis\<close> is the free-running millisecond clock (it
  moves only through \<open>delay\<close> and through \<open>advance\<close>, the time that passes between two
  calls), \<open>motor\<close> is the level of the motor pin, and \<open>trace\<close> logs, in order, what the
  sketch did to the outside world.
\<close>

datatype event =
    MotorWrite bool          \<comment> \<open>digitalWrite(MOTOR, level)\<close>
  | Delay nat                \<comment> \<open>delay(ms)\<close>
  | Draw int int int int     \<comment> \<open>one committed picture: frame index, hour, minute, second dots\<close>

record state =
  animation_index :: int
  last_animation :: int
  frame :: int
  hours_half :: int
  minutes_half :: int
  seconds :: int
  lastMillis :: "32 word"
  lastCLK :: bool
  setHours :: bool
  lastButtonTime :: "32 word"
  lastDraw :: "32 word"
  millis :: "32 word"
  motor :: bool
  trace :: "event list"

subsection \<open>Constants\<close>

definition FRAME_COUNT :: int where "FRAME_COUNT = 28"
definition NUM_ANIMATIONS :: int where "NUM_ANIMATIONS = 6"
definition SECONDS_PER_MINUTE :: int where "SECONDS_PER_MINUTE = 60"
definition HALF_HOURS_PER_DAY :: int where "HALF_HOURS_PER_DAY = 48"
definition HALF_MINUTES_PER_HOUR :: int where "HALF_MINUTES_PER_HOUR = 120"
definition MILLIS_PER_SECOND :: "32 word" where "MILLIS_PER_SECOND = 1000"
definition DISPLAY_UPDATE_INTERVAL_MS :: "32 word" where "DISPLAY_UPDATE_INTERVAL_MS = 100"
definition MOTOR_BUZZ_DURATION_MS :: nat where "MOTOR_BUZZ_DURATION_MS = 70"
definition MOTOR_PAUSE_DURATION_MS :: nat where "MOTOR_PAUSE_DURATION_MS = 70"
definition MOTOR_CYCLE_PAUSE_MS :: nat where "MOTOR_CYCLE_PAUSE_MS = 60"
definition MOTOR_BUZZ_CYCLES :: nat where "MOTOR_BUZZ_CYCLES = 3"
definition MOTOR_BUZZ_GROUPS :: nat where "MOTOR_BUZZ_GROUPS = 5"
definition debounceDelay :: "32 word" where "debounceDelay = 250"

lemmas constants =
  FRAME_COUNT_def NUM_ANIMATIONS_def SECONDS_PER_MINUTE_def HALF_HOURS_PER_DAY_def
  HALF_MINUTES_PER_HOUR_def MILLIS_PER_SECOND_def DISPLAY_UPDATE_INTERVAL_MS_def
  MOTOR_BUZZ_DURATION_MS_def MOTOR_PAUSE_DURATION_MS_def MOTOR_CYCLE_PAUSE_MS_def
  MOTOR_BUZZ_CYCLES_def MOTOR_BUZZ_GROUPS_def debounceDelay_def

subsection \<open>Hardware primitives\<close>

definition delay :: "nat \<Rightarrow> state \<Rightarrow> state" where
  "delay ms s = s\<lparr>millis := millis s + of_nat ms, trace := trace s @ [Delay ms]\<rparr>"

definition digitalWrite_MOTOR :: "bool \<Rightarrow> state \<Rightarrow> state" where
  "digitalWrite_MOTOR level s = s\<lparr>motor := level, trace := trace s @ [MotorWrite level]\<rparr>"

text \<open>Time that passes outside the sketch's own \<open>delay\<close> calls.\<close>

definition advance :: "32 word \<Rightarrow> state \<Rightarrow> state" where
  "advance ms s = s\<lparr>millis := millis s + ms\<rparr>"

subsection \<open>updateDisplay\<close>

text \<open>
  The draw is rate limited by the static \<open>lastDraw\<close>. A draw shows \<open>frames[frame]\<close>, the
  time as \<open>hours_half / 2\<close> and \<open>minutes_half / 2\<close>, and one dot per second; only afterwards
  the frame cursor moves on, into the band of the current \<open>animation_index\<close>.
\<close>

definition updateDisplay :: "state \<Rightarrow> state" where
  "updateDisplay s =
     (if millis s - lastDraw s < DISPLAY_UPDATE_INTERVAL_MS then s
      else s\<lparr>lastDraw := millis s,
              trace := trace s @ [Draw (frame s) (hours_half s sdiv 2) (minutes_half s sdiv 2) (seconds s)],
              frame := (frame s + 1) smod FRAME_COUNT + animation_index s * FRAME_COUNT\<rparr>)"

subsection \<open>triggerMotorBuzz\<close>

text \<open>One pass of the inner loop body, of the outer loop body, and the two loops.\<close>

definition buzz_cycle :: "state \<Rightarrow> state" where
  "buzz_cycle s =
     (let s1 = digitalWrite_MOTOR True s;
          s2 = updateDisplay s1;
          s3 = delay MOTOR_BUZZ_DURATION_MS s2;
          s4 = updateDisplay s3;
          s5 = delay MOTOR_BUZZ_DURATION_MS s4;
          s6 = digitalWrite_MOTOR False s5;
          s7 = updateDisplay s6
      in delay MOTOR_PAUSE_DURATION_MS s7)"

definition buzz_group :: "state \<Rightarrow> state" where
  "buzz_group s =
     (let s1 = (buzz_cycle ^^ MOTOR_BUZZ_CYCLES) s;
          s2 = updateDisplay s1
      in delay MOTOR_CYCLE_PAUSE_MS s2)"

definition triggerMotorBuzz :: "state \<Rightarrow> state" where
  "triggerMotorBuzz s = (buzz_group ^^ MOTOR_BUZZ_GROUPS) s"

subsection \<open>selectAnimationByTime\<close>

text \<open>Five sequential \<open>if\<close> statements, none of them an \<open>else\<close>: a later one overrides.\<close>

definition selectAnimationByTime :: "state \<Rightarrow> state" where
  "selectAnimationByTime s =
     (let currentHour = hours_half s sdiv 2;
          currentMinute = minutes_half s sdiv 2;
          s1 = (if minutes_half s \<ge> 10 then s\<lparr>animation_index := 0\<rparr> else s);
          s2 = (if currentHour = 12 then s1\<lparr>animation_index := 6\<rparr> else s1);
          s3 = (if currentHour = 16 \<and> currentMinute \<le> 15 then s2\<lparr>animation_index := 7\<rparr> else s2);
          s4 = (if currentHour \<ge> 19 \<or> currentHour < 8 then s3\<lparr>animation_index := 8\<rparr> else s3);
          s5 = (if currentHour \<ge> 8 \<and> currentHour \<le> 9 then s4\<lparr>animation_index := 9\<rparr> else s4)
      in s5)"

subsection \<open>updateTime\<close>

text \<open>The minute carry: the first inner \<open>if\<close> of \<open>updateTime\<close>.\<close>

definition minute_carry :: "state \<Rightarrow> state" where
  "minute_carry s =
     (if seconds s \<ge> SECONDS_PER_MINUTE
      then s\<lparr>seconds := 0, minutes_half := minutes_half s + 2\<rparr>
      else s)"

text \<open>The body of the second inner \<open>if\<close>: the hour rollover.\<close>

definition hour_rollover :: "state \<Rightarrow> state" where
  "hour_rollover s =
     (let s1 = s\<lparr>minutes_half := 0\<rparr>;
          s2 = s1\<lparr>hours_half := (hours_half s1 + 2) smod HALF_HOURS_PER_DAY\<rparr>;
          s3 = s2\<lparr>last_animation := (last_animation s2 smod NUM_ANIMATIONS) + 1\<rparr>;
          s4 = s3\<lparr>animation_index := last_animation s3\<rparr>;
          s5 = s4\<lparr>frame := (frame s4 + 1) smod FRAME_COUNT + animation_index s4 * FRAME_COUNT\<rparr>;
          s6 = updateDisplay s5;
          currentHour = hours_half s6 sdiv 2
      in if currentHour \<ge> 9 \<and> currentHour \<le> 19 then triggerMotorBuzz s6 else s6)"

definition hour_carry :: "state \<Rightarrow> state" where
  "hour_carry s = (if minutes_half s \<ge> HALF_MINUTES_PER_HOUR then hour_rollover s else s)"

text \<open>The body of the outer \<open>if\<close>: one second boundary is processed.\<close>

definition tick :: "state \<Rightarrow> state" where
  "tick s =
     (let s1 = s\<lparr>lastMillis := lastMillis s + MILLIS_PER_SECOND\<rparr>;
          s2 = s1\<lparr>seconds := seconds s1 + 1\<rparr>;
          s3 = minute_carry s2;
          s4 = hour_carry s3
      in selectAnimationByTime s4)"

definition updateTime :: "state \<Rightarrow> state" where
  "updateTime s = (if millis s - lastMillis s \<ge> MILLIS_PER_SECOND then tick s else s)"

subsection \<open>adjustTime and readEncoder\<close>

definition adjustTime :: "int \<Rightarrow> state \<Rightarrow> state" where
  "adjustTime delta s =
     (if setHours s
      then s\<lparr>hours_half := (hours_half s + delta + HALF_HOURS_PER_DAY) smod HALF_HOURS_PER_DAY\<rparr>
      else
        (let s1 = s\<lparr>minutes_half := minutes_half s + delta\<rparr>;
             s2 = (if minutes_half s1 < 0 then s1\<lparr>minutes_half := HALF_MINUTES_PER_HOUR - 1\<rparr> else s1);
             s3 = (if minutes_half s2 \<ge> HALF_MINUTES_PER_HOUR then s2\<lparr>minutes_half := 0\<rparr> else s2)
         in s3))"

text \<open>
  The three pin levels read by one call are its arguments (\<open>True\<close> is HIGH); the button is
  active low.
\<close>

definition readEncoder :: "bool \<Rightarrow> bool \<Rightarrow> bool \<Rightarrow> state \<Rightarrow> state" where
  "readEncoder clk dt sw s =
     (let currentCLK = clk;
          s1 = (if currentCLK \<noteq> lastCLK s
                then (if dt \<noteq> currentCLK then adjustTime 1 s else adjustTime (-1) s)
                else s);
          s2 = s1\<lparr>lastCLK := currentCLK\<rparr>
      in if \<not> sw
         then (if millis s2 - lastButtonTime s2 > debounceDelay
               then s2\<lparr>seconds := 0, setHours := \<not> setHours s2, lastButtonTime := millis s2\<rparr>
               else s2)
         else s2)"

subsection \<open>setup and loop\<close>

text \<open>
  The globals' initialisers and \<open>setup()\<close>, which writes the motor pin LOW and reads the
  encoder's CLK level once. The millisecond clock starts at 0.
\<close>

definition setup_sketch :: "bool \<Rightarrow> state" where
  "setup_sketch clk =
     \<lparr>animation_index = 0, last_animation = 1, frame = 0,
      hours_half = 24, minutes_half = 0, seconds = 0,
      lastMillis = 0, lastCLK = clk, setHours = False, lastButtonTime = 0,
      lastDraw = 0, millis = 0, motor = False, trace = [MotorWrite False]\<rparr>"

definition loop :: "bool \<Rightarrow> bool \<Rightarrow> bool \<Rightarrow> state \<Rightarrow> state" where
  "loop clk dt sw s = updateDisplay (readEncoder clk dt sw (updateTime s))"

subsection \<open>Reading the trace\<close>

fun total_delay :: "event list \<Rightarrow> nat" where
  "total_delay [] = 0"
| "total_delay (Delay n # es) = n + total_delay es"
| "total_delay (e # es) = total_delay es"

text \<open>The motor level after a run of events, given the level before it.\<close>

fun level_after :: "bool \<Rightarrow> event list \<Rightarrow> bool" where
  "level_after l [] = l"
| "level_after l (MotorWrite b # es) = level_after b es"
| "level_after l (e # es) = level_after l es"

text \<open>The delays that elapse while the motor is HIGH, given the level before the events.\<close>

fun high_scan :: "bool \<Rightarrow> event list \<Rightarrow> nat list" where
  "high_scan l [] = []"
| "high_scan l (MotorWrite b # es) = high_scan b es"
| "high_scan l (Delay n # es) = (if l then n # high_scan l es else high_scan l es)"
| "high_scan l (e # es) = high_scan l es"

text \<open>The motor pin is LOW when the trace starts.\<close>

definition high_delays :: "event list \<Rightarrow> nat list" where
  "high_delays es = high_scan False es"

text \<open>The ranges of the time of day: half-hours in 0..47, half-minutes in 0..119.\<close>

definition time_valid :: "state \<Rightarrow> bool" where
  "time_valid s \<longleftrightarrow> 0 \<le> hours_half s \<and> hours_half s < 48 \<and> 0 \<le> minutes_half s \<and> minutes_half s < 120"

text \<open>How often the motor was switched on, and the trace without the pictures.\<close>

definition motor_on_count :: "event list \<Rightarrow> nat" where
  "motor_on_count es = length (filter (\<lambda>e. e = MotorWrite True) es)"

fun is_draw :: "event \<Rightarrow> bool" where
  "is_draw (Draw f h m d) = True"
| "is_draw e = False"

definition motor_events :: "event list \<Rightarrow> event list" where
  "motor_events es = filter (\<lambda>e. \<not> is_draw e) es"

text \<open>What one pass of the inner loop of \<open>triggerMotorBuzz\<close> does to motor and clock.\<close>

definition cycle_events :: "event list" where
  "cycle_events = [MotorWrite True, Delay 70, Delay 70, MotorWrite False, Delay 70]"

text \<open>The frame band of animation \<open>a\<close>: the indices \<open>a * FRAME_COUNT\<close> up to the next band.\<close>

definition in_band :: "int \<Rightarrow> int \<Rightarrow> bool" where
  "in_band a f \<longleftrightarrow> a * FRAME_COUNT \<le> f \<and> f < (a + 1) * FRAME_COUNT"

subsection \<open>Counting hour rollovers\<close>

text \<open>
  \<open>rolls_over s\<close> is the guard of the hour \<open>if\<close> as \<open>tick s\<close> evaluates it, after the
  second was counted and the minute carried; \<open>rollovers n s\<close> counts the ticks among the
  next \<open>n\<close> that take that branch.
\<close>

definition rolls_over :: "state \<Rightarrow> bool" where
  "rolls_over s \<longleftrightarrow>
     minutes_half (minute_carry (s\<lparr>lastMillis := lastMillis s + MILLIS_PER_SECOND,
                                    seconds := seconds s + 1\<rparr>)) \<ge> HALF_MINUTES_PER_HOUR"

fun rollovers :: "nat \<Rightarrow> state \<Rightarrow> nat" where
  "rollovers 0 s = 0"
| "rollovers (Suc n) s = (if rolls_over s then 1 else 0) + rollovers n (tick s)"

text \<open>
  The clock fields on their own, with a rollover count: seconds, half-minutes, half-hours,
  rollovers. \<open>clock_step\<close> is what a tick does to them and \<open>minute_step\<close> what sixty ticks
  do; both are proved against \<open>tick\<close> below and serve only the proofs.
\<close>

type_synonym clock = "int \<times> int \<times> int \<times> nat"

definition clock_of :: "state \<Rightarrow> nat \<Rightarrow> clock" where
  "clock_of s r = (seconds s, minutes_half s, hours_half s, r)"

definition clock_step :: "clock \<Rightarrow> clock" where
  "clock_step c =
     (case c of (sec, m, h, r) \<Rightarrow>
        let sec1 = sec + 1;
            sec2 = (if sec1 \<ge> 60 then 0 else sec1);
            m2 = (if sec1 \<ge> 60 then m + 2 else m)
        in if m2 \<ge> 120 then (sec2, 0, (h + 2) smod 48, r + 1) else (sec2, m2, h, r))"

definition minute_step :: "clock \<Rightarrow> clock" where
  "minute_step c =
     (case c of (sec, m, h, r) \<Rightarrow>
        if m + 2 \<ge> 120 then (sec, 0, (h + 2) smod 48, r + 1) else (sec, m + 2, h, r))"

section \<open>Properties\<close>

subsection \<open>Division and remainder on the values the sketch computes\<close>

lemma smod_nonneg: "0 \<le> (a::int) \<Longrightarrow> 0 < b \<Longrightarrow> a smod b = a mod b"
  by (simp add: smod_int_alt_def sgn_if)

lemma sdiv_nonneg: "0 \<le> (a::int) \<Longrightarrow> 0 < b \<Longrightarrow> a sdiv b = a div b"
  by (simp add: signed_divide_int_def sgn_if)

subsection \<open>adjustTime\<close>

lemma adjustTime_hours:
  assumes "setHours s" "0 \<le> hours_half s" "- 48 \<le> delta"
  shows "adjustTime delta s = s\<lparr>hours_half := (hours_half s + delta) mod 48\<rparr>"
proof -
  have "0 \<le> hours_half s + delta + 48" using assms by arith
  then have "(hours_half s + delta + 48) smod 48 = (hours_half s + delta + 48) mod 48"
    by (rule smod_nonneg) simp
  also have "\<dots> = (hours_half s + delta) mod 48" by simp
  finally show ?thesis using assms(1) by (simp add: adjustTime_def constants)
qed

lemma adjustTime_minutes:
  assumes "\<not> setHours s"
  shows "adjustTime delta s =
     s\<lparr>minutes_half := (if minutes_half s + delta < 0 then 119
                         else if minutes_half s + delta \<ge> 120 then 0
                         else minutes_half s + delta)\<rparr>"
  using assms by (simp add: adjustTime_def constants Let_def)

lemma adjustTime_other_fields:
  "seconds (adjustTime delta s) = seconds s"
  "setHours (adjustTime delta s) = setHours s"
  "lastButtonTime (adjustTime delta s) = lastButtonTime s"
  "millis (adjustTime delta s) = millis s"
  "animation_index (adjustTime delta s) = animation_index s"
  "last_animation (adjustTime delta s) = last_animation s"
  "frame (adjustTime delta s) = frame s"
  "motor (adjustTime delta s) = motor s"
  "trace (adjustTime delta s) = trace s"
  by (simp_all add: adjustTime_def Let_def)

text \<open>
  Claim C4, as stated: in minute mode one encoder step changes \<open>minutes_half\<close> by twice
  the step. The sketch adds the step itself: from 5 minutes (\<open>minutes_half = 10\<close>) one step
  clockwise gives 11, not 12.
\<close>

theorem adjustTime_minute_step_counterexample:
  "\<not> setHours ((setup_sketch True)\<lparr>minutes_half := 10\<rparr>)
   \<and> minutes_half (adjustTime 1 ((setup_sketch True)\<lparr>minutes_half := 10\<rparr>)) = 11
   \<and> minutes_half (adjustTime 1 ((setup_sketch True)\<lparr>minutes_half := 10\<rparr>))
       \<noteq> minutes_half ((setup_sketch True)\<lparr>minutes_half := 10\<rparr>) + 2 * 1"
  by (simp add: adjustTime_def setup_sketch_def constants Let_def)

text \<open>
  Claim C4, amended: in minute mode (\<open>setHours\<close> false) \<open>adjustTime delta\<close> adds \<open>delta\<close>
  half-minutes, one half-minute per encoder step, with the manual clamps: a negative result
  becomes the top of the range, 119, and a result at or above 120 becomes 0. For one step
  up or down from a value in 0..119 the clamps are the wrap-around modulo 120.
\<close>

theorem adjustTime_minute_step:
  assumes "\<not> setHours s"
  shows "minutes_half (adjustTime delta s) =
     (if minutes_half s + delta < 0 then HALF_MINUTES_PER_HOUR - 1
      else if minutes_half s + delta \<ge> HALF_MINUTES_PER_HOUR then 0
      else minutes_half s + delta)
   \<and> (0 \<le> minutes_half s \<and> minutes_half s < HALF_MINUTES_PER_HOUR \<and> (delta = 1 \<or> delta = - 1)
        \<longrightarrow> minutes_half (adjustTime delta s) = (minutes_half s + delta) mod HALF_MINUTES_PER_HOUR)"
proof -
  let ?m = "minutes_half s"
  have clamp: "minutes_half (adjustTime delta s) =
      (if ?m + delta < 0 then 119 else if ?m + delta \<ge> 120 then 0 else ?m + delta)"
    using assms by (simp add: adjustTime_minutes)
  have up: "(?m + 1) mod 120 = (if ?m + 1 \<ge> 120 then 0 else ?m + 1)" if "0 \<le> ?m" "?m < 120"
  proof (cases "?m = 119")
    case True
    then show ?thesis by simp
  next
    case False
    with that have "0 \<le> ?m + 1" "?m + 1 < 120" by simp_all
    then show ?thesis by simp
  qed
  have down: "(?m + - 1) mod 120 = (if ?m + - 1 < 0 then 119 else ?m + - 1)" if "0 \<le> ?m" "?m < 120"
  proof (cases "?m = 0")
    case True
    then show ?thesis by simp
  next
    case False
    with that have "0 \<le> ?m + - 1" "?m + - 1 < 120" by simp_all
    then show ?thesis by simp
  qed
  show ?thesis
    using clamp up down by (auto simp: constants)
qed

theorem adjustTime_minute_step_witness:
  "\<not> setHours (setup_sketch True)
   \<and> minutes_half (adjustTime (-1) (setup_sketch True)) = 119
   \<and> minutes_half (adjustTime 1 ((setup_sketch True)\<lparr>minutes_half := 119\<rparr>)) = 0
   \<and> minutes_half (adjustTime 1 ((setup_sketch True)\<lparr>minutes_half := 10\<rparr>)) = 11"
proof -
  have m: "\<not> setHours (setup_sketch True)" "\<not> setHours ((setup_sketch True)\<lparr>minutes_half := 119\<rparr>)"
    "\<not> setHours ((setup_sketch True)\<lparr>minutes_half := 10\<rparr>)"
    by (simp_all add: setup_sketch_def)
  show ?thesis
    using m(1) adjustTime_minute_step [OF m(1), of "-1"] adjustTime_minute_step [OF m(2), of 1]
      adjustTime_minute_step [OF m(3), of 1]
    by (simp add: setup_sketch_def constants)
qed

text \<open>
  Claim C8: from every valid time (\<open>hours_half\<close> in 0..47, \<open>minutes_half\<close> in 0..119), in
  either edit mode, \<open>adjustTime 1\<close> followed by \<open>adjustTime (-1)\<close> gives back the state it
  started from, also across the wrap from the maximum to zero.
\<close>

theorem adjustTime_round_trip:
  "time_valid s \<Longrightarrow> adjustTime (-1) (adjustTime 1 s) = s"
proof (cases "setHours s")
  case True
  assume v: "time_valid s"
  then have h: "0 \<le> hours_half s" "hours_half s < 48" by (simp_all add: time_valid_def)
  let ?s1 = "s\<lparr>hours_half := (hours_half s + 1) mod 48\<rparr>"
  have 1: "adjustTime 1 s = ?s1" using True h by (simp add: adjustTime_hours)
  have 2: "adjustTime (-1) ?s1 = ?s1\<lparr>hours_half := (hours_half ?s1 + - 1) mod 48\<rparr>"
    using True by (intro adjustTime_hours) simp_all
  have "((hours_half s + 1) mod 48 + - 1) mod 48 = hours_half s"
    using h by (simp add: mod_simps)
  with 1 2 show ?thesis by simp
next
  case False
  assume "time_valid s"
  with False show ?thesis
    by (auto simp: adjustTime_minutes time_valid_def)
qed

theorem adjustTime_round_trip_witness:
  "time_valid ((setup_sketch True)\<lparr>hours_half := 47, setHours := True\<rparr>)
   \<and> hours_half (adjustTime 1 ((setup_sketch True)\<lparr>hours_half := 47, setHours := True\<rparr>)) = 0
   \<and> adjustTime (-1) (adjustTime 1 ((setup_sketch True)\<lparr>hours_half := 47, setHours := True\<rparr>))
       = (setup_sketch True)\<lparr>hours_half := 47, setHours := True\<rparr>
   \<and> time_valid ((setup_sketch True)\<lparr>minutes_half := 119\<rparr>)
   \<and> minutes_half (adjustTime 1 ((setup_sketch True)\<lparr>minutes_half := 119\<rparr>)) = 0
   \<and> adjustTime (-1) (adjustTime 1 ((setup_sketch True)\<lparr>minutes_half := 119\<rparr>))
       = (setup_sketch True)\<lparr>minutes_half := 119\<rparr>"
proof -
  let ?h = "(setup_sketch True)\<lparr>hours_half := 47, setHours := True\<rparr>"
  let ?m = "(setup_sketch True)\<lparr>minutes_half := 119\<rparr>"
  have v: "time_valid ?h" and w: "time_valid ?m"
    by (simp_all add: time_valid_def setup_sketch_def)
  have h0: "hours_half (adjustTime 1 ?h) = 0"
    by (simp add: adjustTime_def setup_sketch_def constants smod_nonneg)
  have m0: "minutes_half (adjustTime 1 ?m) = 0"
    by (simp add: adjustTime_def setup_sketch_def constants Let_def)
  show ?thesis
    using v w h0 m0 adjustTime_round_trip [OF v] adjustTime_round_trip [OF w] by blast
qed

text \<open>
  Claim C10: \<open>adjustTime\<close> writes only the field the edit mode designates. In hour mode the
  result is the old state with a new \<open>hours_half\<close>, in minute mode the old state with a new
  \<open>minutes_half\<close>; seconds, animation index, rotation counter, frame cursor and edit mode
  keep their values, and nothing of an hour rollover happens: the motor pin and the trace
  (no draw, no buzz) are untouched, also when the hour wraps past midnight.
\<close>

theorem adjustTime_frame:
  "(setHours s \<longrightarrow> adjustTime delta s = s\<lparr>hours_half := hours_half (adjustTime delta s)\<rparr>)
   \<and> (\<not> setHours s \<longrightarrow> adjustTime delta s = s\<lparr>minutes_half := minutes_half (adjustTime delta s)\<rparr>)
   \<and> seconds (adjustTime delta s) = seconds s
   \<and> animation_index (adjustTime delta s) = animation_index s
   \<and> last_animation (adjustTime delta s) = last_animation s
   \<and> frame (adjustTime delta s) = frame s
   \<and> setHours (adjustTime delta s) = setHours s
   \<and> motor (adjustTime delta s) = motor s
   \<and> trace (adjustTime delta s) = trace s"
  by (simp add: adjustTime_def Let_def)

theorem adjustTime_frame_witness:
  "adjustTime 1 ((setup_sketch True)\<lparr>hours_half := 47, setHours := True\<rparr>)
     = (setup_sketch True)\<lparr>hours_half := 0, setHours := True\<rparr>
   \<and> last_animation (adjustTime 1 ((setup_sketch True)\<lparr>hours_half := 47, setHours := True\<rparr>)) = 1
   \<and> trace (adjustTime 1 ((setup_sketch True)\<lparr>hours_half := 47, setHours := True\<rparr>)) = [MotorWrite False]"
proof -
  have h: "hours_half (adjustTime 1 ((setup_sketch True)\<lparr>hours_half := 47, setHours := True\<rparr>)) = 0"
    by (simp add: adjustTime_def setup_sketch_def constants smod_nonneg)
  show ?thesis
    using h adjustTime_frame [of "(setup_sketch True)\<lparr>hours_half := 47, setHours := True\<rparr>" 1]
    by (simp add: setup_sketch_def)
qed

subsection \<open>selectAnimationByTime\<close>

text \<open>
  Claim C6: the boundary cases of the selection. Hour 16, minute 15 selects the afternoon
  break (7); hour 16, minute 16 the work animation (0); hour 8, minute 0 the morning (9);
  hour 19, minute 0 the evening and night animation (8).
\<close>

theorem selectAnimation_boundaries:
  "(hours_half s sdiv 2 = 16 \<and> minutes_half s sdiv 2 = 15
      \<longrightarrow> animation_index (selectAnimationByTime s) = 7)
   \<and> (hours_half s sdiv 2 = 16 \<and> minutes_half s sdiv 2 = 16
      \<longrightarrow> animation_index (selectAnimationByTime s) = 0)
   \<and> (hours_half s sdiv 2 = 8 \<and> minutes_half s sdiv 2 = 0
      \<longrightarrow> animation_index (selectAnimationByTime s) = 9)
   \<and> (hours_half s sdiv 2 = 19 \<and> minutes_half s sdiv 2 = 0
      \<longrightarrow> animation_index (selectAnimationByTime s) = 8)"
proof -
  have m15: "minutes_half s \<ge> 10" if "minutes_half s sdiv 2 = 15"
    using that by (cases "0 \<le> minutes_half s") (auto simp: signed_divide_int_def sgn_if split: if_splits)
  have m16: "minutes_half s \<ge> 10" if "minutes_half s sdiv 2 = 16"
    using that by (cases "0 \<le> minutes_half s") (auto simp: signed_divide_int_def sgn_if split: if_splits)
  show ?thesis
    using m15 m16 by (auto simp: selectAnimationByTime_def Let_def)
qed

theorem selectAnimation_boundaries_witness:
  "animation_index (selectAnimationByTime ((setup_sketch True)\<lparr>hours_half := 32, minutes_half := 30\<rparr>)) = 7
   \<and> animation_index (selectAnimationByTime ((setup_sketch True)\<lparr>hours_half := 32, minutes_half := 32\<rparr>)) = 0
   \<and> animation_index (selectAnimationByTime ((setup_sketch True)\<lparr>hours_half := 16, minutes_half := 0\<rparr>)) = 9
   \<and> animation_index (selectAnimationByTime ((setup_sketch True)\<lparr>hours_half := 38, minutes_half := 0\<rparr>)) = 8"
  using selectAnimation_boundaries [of "(setup_sketch True)\<lparr>hours_half := 32, minutes_half := 30\<rparr>"]
    selectAnimation_boundaries [of "(setup_sketch True)\<lparr>hours_half := 32, minutes_half := 32\<rparr>"]
    selectAnimation_boundaries [of "(setup_sketch True)\<lparr>hours_half := 16, minutes_half := 0\<rparr>"]
    selectAnimation_boundaries [of "(setup_sketch True)\<lparr>hours_half := 38, minutes_half := 0\<rparr>"]
  by (simp add: setup_sketch_def sdiv_nonneg)

text \<open>
  Claim C5, as stated: two states that agree on \<open>hours_half\<close>, \<open>minutes_half\<close> and
  \<open>last_animation\<close> get the same \<open>animation_index\<close>. At 10:00 no rule fires, and the
  index that was there before stays: 0 in one state, 6 in the other.
\<close>

theorem selectAnimation_prior_index_counterexample:
  "hours_half ((setup_sketch True)\<lparr>hours_half := 20\<rparr>)
     = hours_half ((setup_sketch True)\<lparr>hours_half := 20, animation_index := 6\<rparr>)
   \<and> minutes_half ((setup_sketch True)\<lparr>hours_half := 20\<rparr>)
     = minutes_half ((setup_sketch True)\<lparr>hours_half := 20, animation_index := 6\<rparr>)
   \<and> last_animation ((setup_sketch True)\<lparr>hours_half := 20\<rparr>)
     = last_animation ((setup_sketch True)\<lparr>hours_half := 20, animation_index := 6\<rparr>)
   \<and> animation_index (selectAnimationByTime ((setup_sketch True)\<lparr>hours_half := 20\<rparr>)) = 0
   \<and> animation_index (selectAnimationByTime ((setup_sketch True)\<lparr>hours_half := 20, animation_index := 6\<rparr>)) = 6"
  by (simp add: selectAnimationByTime_def setup_sketch_def Let_def sdiv_nonneg)

text \<open>
  Claim C5, amended: the selected index is a function of \<open>hours_half\<close>, \<open>minutes_half\<close>
  and the index before the call; \<open>last_animation\<close> is never read. Two states that agree on
  the two time fields get the same index when they agree on the prior index or when some
  rule fires (\<open>minutes_half\<close> at least 10, hour 12, hour 16 up to minute 15, hour at least
  19, hour at most 9); when no rule fires the prior index is kept.
\<close>

theorem selectAnimation_determinism:
  assumes "hours_half s = hours_half t" and "minutes_half s = minutes_half t"
  shows "(animation_index s = animation_index t
            \<or> minutes_half s \<ge> 10 \<or> hours_half s sdiv 2 = 12
            \<or> (hours_half s sdiv 2 = 16 \<and> minutes_half s sdiv 2 \<le> 15)
            \<or> hours_half s sdiv 2 \<ge> 19 \<or> hours_half s sdiv 2 \<le> 9
          \<longrightarrow> animation_index (selectAnimationByTime s) = animation_index (selectAnimationByTime t))
       \<and> (\<not> (minutes_half s \<ge> 10 \<or> hours_half s sdiv 2 = 12
            \<or> (hours_half s sdiv 2 = 16 \<and> minutes_half s sdiv 2 \<le> 15)
            \<or> hours_half s sdiv 2 \<ge> 19 \<or> hours_half s sdiv 2 \<le> 9)
          \<longrightarrow> animation_index (selectAnimationByTime s) = animation_index s)"
  using assms by (auto simp: selectAnimationByTime_def Let_def)

theorem selectAnimation_determinism_witness:
  "animation_index (selectAnimationByTime ((setup_sketch True)\<lparr>minutes_half := 10\<rparr>))
     = animation_index (selectAnimationByTime ((setup_sketch True)\<lparr>minutes_half := 10, animation_index := 3, last_animation := 5\<rparr>))
   \<and> animation_index (selectAnimationByTime ((setup_sketch True)\<lparr>hours_half := 20, animation_index := 3\<rparr>)) = 3"
proof -
  let ?s = "(setup_sketch True)\<lparr>minutes_half := 10\<rparr>"
  let ?t = "(setup_sketch True)\<lparr>minutes_half := 10, animation_index := 3, last_animation := 5\<rparr>"
  let ?u = "(setup_sketch True)\<lparr>hours_half := 20, animation_index := 3\<rparr>"
  have a: "hours_half ?s = hours_half ?t" "minutes_half ?s = minutes_half ?t" "minutes_half ?s \<ge> 10"
    by (simp_all add: setup_sketch_def)
  have b: "hours_half ?u = hours_half ?u" "minutes_half ?u = minutes_half ?u"
    "hours_half ?u sdiv 2 = 10" "minutes_half ?u sdiv 2 = 0" "minutes_half ?u = 0"
    by (simp_all add: setup_sketch_def sdiv_nonneg)
  show ?thesis
    using selectAnimation_determinism [OF a(1) a(2)] a(3)
      selectAnimation_determinism [OF b(1) b(2)] b(3) b(4) b(5)
    by simp
qed

subsection \<open>The mode button\<close>

lemma readEncoder_button:
  "setHours (readEncoder clk dt sw s)
     = (if \<not> sw \<and> millis s - lastButtonTime s > 250 then \<not> setHours s else setHours s)"
  "lastButtonTime (readEncoder clk dt sw s)
     = (if \<not> sw \<and> millis s - lastButtonTime s > 250 then millis s else lastButtonTime s)"
  "millis (readEncoder clk dt sw s) = millis s"
  "seconds (readEncoder clk dt sw s)
     = (if \<not> sw \<and> millis s - lastButtonTime s > 250 then 0 else seconds s)"
  by (simp_all add: readEncoder_def Let_def constants adjustTime_other_fields)

text \<open>
  Claim C9, as stated: a press at least 250 ms after the last accepted one is accepted. The
  sketch compares with \<open>>\<close>: a first press at 1000 ms is accepted, a second one exactly
  250 ms later is not, and the edit mode is toggled once.
\<close>

theorem button_exactly_250_counterexample:
  "lastButtonTime (readEncoder True True False (advance 1000 (setup_sketch True))) = 1000
   \<and> setHours (readEncoder True True False (advance 1000 (setup_sketch True)))
   \<and> millis (advance 250 (readEncoder True True False (advance 1000 (setup_sketch True)))) = 1250
   \<and> setHours (readEncoder True True False
        (advance 250 (readEncoder True True False (advance 1000 (setup_sketch True)))))"
  by (simp add: readEncoder_button advance_def setup_sketch_def)

text \<open>
  Claim C9, amended: a press is accepted exactly when the button reads pressed (LOW) and
  more than 250 ms have passed since the last accepted press (counted modulo \<open>2^32\<close>). An
  accepted press toggles the edit mode, resets the seconds and records the time. After an
  accepted press, a second pressed reading \<open>e\<close> ms later toggles again exactly when
  \<open>e\<close> is more than 250: two presses within 250 ms, 250 included, collapse to one.
\<close>

theorem button_debounce:
  "setHours (readEncoder clk dt sw s)
     = (if \<not> sw \<and> millis s - lastButtonTime s > debounceDelay then \<not> setHours s else setHours s)
   \<and> seconds (readEncoder clk dt sw s)
     = (if \<not> sw \<and> millis s - lastButtonTime s > debounceDelay then 0 else seconds s)
   \<and> lastButtonTime (readEncoder clk dt sw s)
     = (if \<not> sw \<and> millis s - lastButtonTime s > debounceDelay then millis s else lastButtonTime s)
   \<and> (\<not> sw \<and> millis s - lastButtonTime s > debounceDelay \<longrightarrow>
        setHours (readEncoder clk' dt' False (advance e (readEncoder clk dt sw s)))
          = (if e > debounceDelay then setHours s else \<not> setHours s))"
  by (simp add: readEncoder_button advance_def constants)

theorem button_debounce_witness:
  "setHours (readEncoder True True False (advance 1000 (setup_sketch True)))
   \<and> setHours (readEncoder True True False
        (advance 250 (readEncoder True True False (advance 1000 (setup_sketch True)))))
   \<and> \<not> setHours (readEncoder True True False
        (advance 251 (readEncoder True True False (advance 1000 (setup_sketch True)))))"
proof -
  let ?s = "advance 1000 (setup_sketch True)"
  have a: "millis ?s - lastButtonTime ?s > debounceDelay" "\<not> setHours ?s"
    by (simp_all add: advance_def setup_sketch_def constants)
  show ?thesis
    using a button_debounce [of True True False ?s True True 250]
      button_debounce [of True True False ?s True True 251]
    by (simp add: constants)
qed

subsection \<open>The loops of fixed length, unrolled\<close>

lemma funpow_3: "(f ^^ 3) s = f (f (f s))"
  by (simp add: numeral_3_eq_3)

lemma funpow_5: "(f ^^ 5) s = f (f (f (f (f s))))"
  by (simp add: eval_nat_numeral)

lemma funpow_9: "(f ^^ 9) s = f (f (f (f (f (f (f (f (f s))))))))"
  by (simp add: eval_nat_numeral)

subsection \<open>The motor pattern\<close>

lemma total_delay_append: "total_delay (xs @ ys) = total_delay xs + total_delay ys"
  by (induction xs rule: total_delay.induct) simp_all

lemma level_after_append: "level_after l (xs @ ys) = level_after (level_after l xs) ys"
  by (induction l xs rule: level_after.induct) simp_all

lemma high_scan_append: "high_scan l (xs @ ys) = high_scan l xs @ high_scan (level_after l xs) ys"
  by (induction l xs rule: high_scan.induct) simp_all

lemma updateDisplay_obs:
  "total_delay (trace (updateDisplay s)) = total_delay (trace s)"
  "level_after l (trace (updateDisplay s)) = level_after l (trace s)"
  "high_scan l (trace (updateDisplay s)) = high_scan l (trace s)"
  "motor_on_count (trace (updateDisplay s)) = motor_on_count (trace s)"
  "motor_events (trace (updateDisplay s)) = motor_events (trace s)"
  "millis (updateDisplay s) = millis s"
  "motor (updateDisplay s) = motor s"
  by (simp_all add: updateDisplay_def total_delay_append level_after_append high_scan_append
      motor_on_count_def motor_events_def)

lemma delay_obs:
  "total_delay (trace (delay n s)) = total_delay (trace s) + n"
  "level_after l (trace (delay n s)) = level_after l (trace s)"
  "high_scan l (trace (delay n s)) = high_scan l (trace s) @ (if level_after l (trace s) then [n] else [])"
  "motor_on_count (trace (delay n s)) = motor_on_count (trace s)"
  "motor_events (trace (delay n s)) = motor_events (trace s) @ [Delay n]"
  "millis (delay n s) = millis s + of_nat n"
  "motor (delay n s) = motor s"
  by (simp_all add: delay_def total_delay_append level_after_append high_scan_append
      motor_on_count_def motor_events_def)

lemma digitalWrite_MOTOR_obs:
  "total_delay (trace (digitalWrite_MOTOR b s)) = total_delay (trace s)"
  "level_after l (trace (digitalWrite_MOTOR b s)) = b"
  "high_scan l (trace (digitalWrite_MOTOR b s)) = high_scan l (trace s)"
  "motor_on_count (trace (digitalWrite_MOTOR b s)) = motor_on_count (trace s) + (if b then 1 else 0)"
  "motor_events (trace (digitalWrite_MOTOR b s)) = motor_events (trace s) @ [MotorWrite b]"
  "millis (digitalWrite_MOTOR b s) = millis s"
  "motor (digitalWrite_MOTOR b s) = b"
  by (simp_all add: digitalWrite_MOTOR_def total_delay_append level_after_append high_scan_append
      motor_on_count_def motor_events_def)

lemmas prim_obs = updateDisplay_obs delay_obs digitalWrite_MOTOR_obs

lemma buzz_cycle_obs:
  "total_delay (trace (buzz_cycle s)) = total_delay (trace s) + 210"
  "level_after l (trace (buzz_cycle s)) = False"
  "high_scan l (trace (buzz_cycle s)) = high_scan l (trace s) @ [70, 70]"
  "motor_on_count (trace (buzz_cycle s)) = motor_on_count (trace s) + 1"
  "motor_events (trace (buzz_cycle s)) = motor_events (trace s) @ cycle_events"
  "millis (buzz_cycle s) = millis s + 210"
  "motor (buzz_cycle s) = False"
  by (simp_all add: buzz_cycle_def Let_def prim_obs constants cycle_events_def)

lemma buzz_group_obs:
  "total_delay (trace (buzz_group s)) = total_delay (trace s) + 690"
  "level_after l (trace (buzz_group s)) = False"
  "high_scan l (trace (buzz_group s)) = high_scan l (trace s) @ replicate 6 70"
  "motor_on_count (trace (buzz_group s)) = motor_on_count (trace s) + 3"
  "motor_events (trace (buzz_group s))
     = motor_events (trace s) @ concat (replicate 3 cycle_events) @ [Delay 60]"
  "millis (buzz_group s) = millis s + 690"
  "motor (buzz_group s) = False"
  by (simp_all add: buzz_group_def Let_def prim_obs buzz_cycle_obs constants funpow_3 eval_nat_numeral)

lemma triggerMotorBuzz_obs:
  "total_delay (trace (triggerMotorBuzz s)) = total_delay (trace s) + 3450"
  "level_after l (trace (triggerMotorBuzz s)) = False"
  "high_scan l (trace (triggerMotorBuzz s)) = high_scan l (trace s) @ replicate 30 70"
  "motor_on_count (trace (triggerMotorBuzz s)) = motor_on_count (trace s) + 15"
  "millis (triggerMotorBuzz s) = millis s + 3450"
  "motor (triggerMotorBuzz s) = False"
  by (simp_all add: triggerMotorBuzz_def buzz_group_obs constants funpow_5 replicate_add [symmetric])

lemma triggerMotorBuzz_events:
  "motor_events (trace (triggerMotorBuzz s))
     = motor_events (trace s) @ concat (replicate 5 (concat (replicate 3 cycle_events) @ [Delay 60]))"
proof -
  have "concat (replicate 5 xs) = xs @ xs @ xs @ xs @ xs" for xs :: "event list"
    by (simp add: eval_nat_numeral)
  then show ?thesis
    by (simp add: triggerMotorBuzz_def buzz_group_obs constants funpow_5)
qed

text \<open>
  Claim C1, as stated: one buzz lasts 2400 ms and the motor is HIGH for 15 intervals of
  70 ms. Each cycle of the sketch delays twice with the motor on before it switches it off:
  from the state after \<open>setup\<close> the delays add up to 3450 ms and 30 intervals of 70 ms pass
  with the motor HIGH.
\<close>

theorem triggerMotorBuzz_claimed_pattern_counterexample:
  "total_delay (trace (triggerMotorBuzz (setup_sketch True))) = 3450
   \<and> high_delays (trace (triggerMotorBuzz (setup_sketch True))) = replicate 30 70
   \<and> \<not> (total_delay (trace (triggerMotorBuzz (setup_sketch True))) = 2400
          \<and> high_delays (trace (triggerMotorBuzz (setup_sketch True))) = replicate 15 70)"
  by (simp add: triggerMotorBuzz_obs high_delays_def setup_sketch_def)

text \<open>
  Claim C1, amended: one call of \<open>triggerMotorBuzz\<close> runs 5 groups of 3 cycles; in each
  cycle the motor is switched on, two delays of 70 ms pass (140 ms on), it is switched off
  and one delay of 70 ms passes; each group ends with a delay of 60 ms. The delays add up to
  \<open>5 * (3 * 210 + 60) = 3450\<close> ms, the motor is switched on 15 times and is HIGH for
  exactly 30 delays of 70 ms, and it is LOW at the end.
\<close>

theorem triggerMotorBuzz_pattern:
  "motor_events (trace (triggerMotorBuzz s))
     = motor_events (trace s) @
       concat (replicate 5
         (concat (replicate 3 [MotorWrite True, Delay 70, Delay 70, MotorWrite False, Delay 70])
          @ [Delay 60]))
   \<and> total_delay (trace (triggerMotorBuzz s)) = total_delay (trace s) + 3450
   \<and> millis (triggerMotorBuzz s) = millis s + 3450
   \<and> high_delays (trace (triggerMotorBuzz s)) = high_delays (trace s) @ replicate 30 70
   \<and> motor_on_count (trace (triggerMotorBuzz s)) = motor_on_count (trace s) + 15
   \<and> \<not> motor (triggerMotorBuzz s)"
  by (simp add: triggerMotorBuzz_obs triggerMotorBuzz_events high_delays_def cycle_events_def
      del: replicate_Suc)

subsection \<open>What a tick does to the clock\<close>

lemma updateDisplay_keeps:
  "seconds (updateDisplay s) = seconds s"
  "minutes_half (updateDisplay s) = minutes_half s"
  "hours_half (updateDisplay s) = hours_half s"
  "lastMillis (updateDisplay s) = lastMillis s"
  by (simp_all add: updateDisplay_def)

lemma delay_keeps:
  "seconds (delay n s) = seconds s"
  "minutes_half (delay n s) = minutes_half s"
  "hours_half (delay n s) = hours_half s"
  "lastMillis (delay n s) = lastMillis s"
  by (simp_all add: delay_def)

lemma digitalWrite_MOTOR_keeps:
  "seconds (digitalWrite_MOTOR b s) = seconds s"
  "minutes_half (digitalWrite_MOTOR b s) = minutes_half s"
  "hours_half (digitalWrite_MOTOR b s) = hours_half s"
  "lastMillis (digitalWrite_MOTOR b s) = lastMillis s"
  by (simp_all add: digitalWrite_MOTOR_def)

lemma buzz_cycle_keeps:
  "seconds (buzz_cycle s) = seconds s"
  "minutes_half (buzz_cycle s) = minutes_half s"
  "hours_half (buzz_cycle s) = hours_half s"
  "lastMillis (buzz_cycle s) = lastMillis s"
  by (simp_all add: buzz_cycle_def Let_def updateDisplay_keeps delay_keeps digitalWrite_MOTOR_keeps)

lemma buzz_group_keeps:
  "seconds (buzz_group s) = seconds s"
  "minutes_half (buzz_group s) = minutes_half s"
  "hours_half (buzz_group s) = hours_half s"
  "lastMillis (buzz_group s) = lastMillis s"
  by (simp_all add: buzz_group_def Let_def constants funpow_3 updateDisplay_keeps delay_keeps
      buzz_cycle_keeps)

lemma triggerMotorBuzz_keeps:
  "seconds (triggerMotorBuzz s) = seconds s"
  "minutes_half (triggerMotorBuzz s) = minutes_half s"
  "hours_half (triggerMotorBuzz s) = hours_half s"
  "lastMillis (triggerMotorBuzz s) = lastMillis s"
  by (simp_all add: triggerMotorBuzz_def constants funpow_5 buzz_group_keeps)

lemma selectAnimationByTime_keeps:
  "seconds (selectAnimationByTime s) = seconds s"
  "minutes_half (selectAnimationByTime s) = minutes_half s"
  "hours_half (selectAnimationByTime s) = hours_half s"
  "lastMillis (selectAnimationByTime s) = lastMillis s"
  "millis (selectAnimationByTime s) = millis s"
  by (simp_all add: selectAnimationByTime_def Let_def)

lemma hour_rollover_clock:
  "seconds (hour_rollover s) = seconds s"
  "minutes_half (hour_rollover s) = 0"
  "hours_half (hour_rollover s) = (hours_half s + 2) smod 48"
  "lastMillis (hour_rollover s) = lastMillis s"
  by (simp_all add: hour_rollover_def Let_def constants updateDisplay_keeps triggerMotorBuzz_keeps)

lemma tick_clock: "clock_of (tick s) (r + (if rolls_over s then 1 else 0)) = clock_step (clock_of s r)"
  by (simp add: clock_of_def clock_step_def tick_def rolls_over_def minute_carry_def hour_carry_def
      Let_def constants selectAnimationByTime_keeps hour_rollover_clock)

lemma ticks_clock: "clock_of ((tick ^^ n) s) (r + rollovers n s) = (clock_step ^^ n) (clock_of s r)"
proof (induction n arbitrary: s r)
  case 0
  show ?case by simp
next
  case (Suc n)
  have "clock_of ((tick ^^ Suc n) s) (r + rollovers (Suc n) s)
      = clock_of ((tick ^^ n) (tick s)) ((r + (if rolls_over s then 1 else 0)) + rollovers n (tick s))"
    by (simp add: funpow_swap1)
  also have "\<dots> = (clock_step ^^ n) (clock_of (tick s) (r + (if rolls_over s then 1 else 0)))"
    by (rule Suc.IH)
  also have "\<dots> = (clock_step ^^ n) (clock_step (clock_of s r))"
    by (simp only: tick_clock)
  finally show ?case by (simp add: funpow_swap1)
qed

lemma seconds_run:
  "sec + int j < 60 \<Longrightarrow> m < 120 \<Longrightarrow> (clock_step ^^ j) (sec, m, h, r) = (sec + int j, m, h, r)"
  by (induction j) (simp_all add: clock_step_def)

lemma one_minute:
  assumes "0 \<le> sec" "sec < 60" "m < 120"
  shows "(clock_step ^^ 60) (sec, m, h, r) = minute_step (sec, m, h, r)"
proof -
  define a where "a = nat (59 - sec)"
  define b where "b = nat sec"
  have n: "(60::nat) = b + (1 + a)" using assms by (simp add: a_def b_def)
  have 1: "(clock_step ^^ a) (sec, m, h, r) = (59, m, h, r)"
    using assms seconds_run [of sec a m h r] by (simp add: a_def)
  have 2: "clock_step (59, m, h, r) = minute_step (0, m, h, r)"
    by (simp add: clock_step_def minute_step_def)
  obtain m' h' r' where 3: "minute_step (0, m, h, r) = (0, m', h', r')" and m': "m' < 120"
    and 4: "minute_step (sec, m, h, r) = (sec, m', h', r')"
    using assms by (cases "m + 2 \<ge> 120") (simp_all add: minute_step_def)
  have 5: "(clock_step ^^ b) (0, m', h', r') = (sec, m', h', r')"
    using assms m' seconds_run [of 0 b m' h' r'] by (simp add: b_def)
  have "(clock_step ^^ 60) (sec, m, h, r)
      = (clock_step ^^ b) (clock_step ((clock_step ^^ a) (sec, m, h, r)))"
    by (subst n) (simp add: funpow_add funpow_swap1)
  then show ?thesis by (simp add: 1 2 3 4 5)
qed

lemma minutes_run:
  "m + 2 * int k < 120 \<Longrightarrow> (minute_step ^^ k) (sec, m, h, r) = (sec, m + 2 * int k, h, r)"
  by (induction k) (simp_all add: minute_step_def)

lemma minutes_as_ticks:
  assumes "0 \<le> sec" "sec < 60" "m < 120"
  shows "(clock_step ^^ (60 * k)) (sec, m, h, r) = (minute_step ^^ k) (sec, m, h, r)
         \<and> fst (snd ((minute_step ^^ k) (sec, m, h, r))) < 120
         \<and> fst ((minute_step ^^ k) (sec, m, h, r)) = sec"
proof (induction k)
  case 0
  show ?case using assms by simp
next
  case (Suc k)
  obtain m' h' r' where e: "(minute_step ^^ k) (sec, m, h, r) = (sec, m', h', r')" and m': "m' < 120"
    using Suc.IH by (cases "(minute_step ^^ k) (sec, m, h, r)") auto
  have "(clock_step ^^ (60 * Suc k)) (sec, m, h, r)
      = (clock_step ^^ 60) ((clock_step ^^ (60 * k)) (sec, m, h, r))"
    by (simp add: funpow_add)
  also have "\<dots> = (clock_step ^^ 60) (sec, m', h', r')"
    using Suc.IH e by simp
  also have "\<dots> = minute_step (sec, m', h', r')"
    using assms m' by (simp add: one_minute)
  finally have 1: "(clock_step ^^ (60 * Suc k)) (sec, m, h, r) = (minute_step ^^ Suc k) (sec, m, h, r)"
    by (simp add: e)
  have 2: "fst (snd (minute_step (sec, m', h', r'))) < 120" "fst (minute_step (sec, m', h', r')) = sec"
    using m' by (simp_all add: minute_step_def)
  show ?case using 1 2 e by simp
qed

lemma sixty_minutes:
  assumes "0 \<le> m" "m < 120"
  shows "(minute_step ^^ 60) (sec, m, h, r) = (sec, m - m mod 2, (h + 2) smod 48, r + 1)"
proof -
  define a where "a = nat (59 - m div 2)"
  define b where "b = nat (m div 2)"
  have n: "(60::nat) = b + (1 + a)" using assms by (simp add: a_def b_def)
  have d: "0 \<le> m div 2" "m div 2 \<le> 59" "2 * (m div 2) = m - m mod 2"
    using assms by (simp_all add: minus_mod_eq_mult_div)
  have ma: "m + 2 * int a = 118 + m mod 2" using d by (simp add: a_def)
  have n: "(60::nat) = b + (1 + a)" using d by (simp add: a_def b_def)
  have 1: "(minute_step ^^ a) (sec, m, h, r) = (sec, 118 + m mod 2, h, r)"
    using minutes_run [of m a sec h r] ma by simp
  have 2: "minute_step (sec, 118 + m mod 2, h, r) = (sec, 0, (h + 2) smod 48, r + 1)"
    by (simp add: minute_step_def)
  have mb: "2 * int b = m - m mod 2" using d by (simp add: b_def)
  have 3: "(minute_step ^^ b) (sec, 0, (h + 2) smod 48, r + 1) = (sec, m - m mod 2, (h + 2) smod 48, r + 1)"
    using minutes_run [of 0 b sec "(h + 2) smod 48" "r + 1"] mb assms by simp
  have "(minute_step ^^ 60) (sec, m, h, r)
      = (minute_step ^^ b) (minute_step ((minute_step ^^ a) (sec, m, h, r)))"
    by (subst n) (simp add: funpow_add funpow_swap1)
  also have "\<dots> = (minute_step ^^ b) (sec, 0, (h + 2) smod 48, r + 1)"
    by (simp only: 1 2)
  also note 3
  finally show ?thesis .
qed

lemma one_hour_of_ticks:
  assumes "0 \<le> seconds s" "seconds s < 60" "0 \<le> minutes_half s" "minutes_half s < 120"
  shows "clock_of ((tick ^^ 3600) s) (rollovers 3600 s)
       = (seconds s, minutes_half s - minutes_half s mod 2, (hours_half s + 2) smod 48, 1)"
proof -
  have "clock_of ((tick ^^ 3600) s) (0 + rollovers 3600 s) = (clock_step ^^ (60 * 60)) (clock_of s 0)"
    by (simp only: ticks_clock) simp
  also have "\<dots> = (minute_step ^^ 60) (clock_of s 0)"
    using assms minutes_as_ticks [of "seconds s" "minutes_half s" 60 "hours_half s" 0]
    by (simp add: clock_of_def)
  also have "\<dots> = (seconds s, minutes_half s - minutes_half s mod 2, (hours_half s + 2) smod 48, 1)"
    using assms by (simp add: clock_of_def sixty_minutes)
  finally show ?thesis by simp
qed

text \<open>
  Claim C7, as stated: from every \<open>minutes_half\<close> in 0..119, sixty minute increments lead
  back to the same value. One encoder step from 12:00 makes \<open>minutes_half\<close> odd, 1; the
  sixtieth increment then reaches 121, the rollover resets it to 0, and the hour of ticks
  ends at 0, not at 1.
\<close>

theorem odd_minutes_half_counterexample:
  "minutes_half (adjustTime 1 (setup_sketch True)) = 1
   \<and> minutes_half ((tick ^^ 3600) (adjustTime 1 (setup_sketch True))) = 0
   \<and> minutes_half ((tick ^^ 3600) (adjustTime 1 (setup_sketch True)))
       \<noteq> minutes_half (adjustTime 1 (setup_sketch True))"
proof -
  let ?s = "adjustTime 1 (setup_sketch True)"
  have 1: "seconds ?s = 0" "minutes_half ?s = 1"
    by (simp_all add: adjustTime_def setup_sketch_def constants Let_def)
  have "clock_of ((tick ^^ 3600) ?s) (rollovers 3600 ?s)
      = (seconds ?s, minutes_half ?s - minutes_half ?s mod 2, (hours_half ?s + 2) smod 48, 1)"
    by (rule one_hour_of_ticks) (simp_all add: 1)
  then have "minutes_half ((tick ^^ 3600) ?s) = 0"
    by (simp add: clock_of_def 1)
  then show ?thesis by (simp add: 1)
qed

text \<open>
  Claim C7, amended: sixty minute increments are the 3600 ticks of one hour. From every
  state with \<open>seconds\<close> in 0..59 and \<open>minutes_half\<close> in 0..119 they take the hour rollover
  exactly once, advance \<open>hours_half\<close> by 2 modulo 48, and lead \<open>minutes_half\<close> back to its
  value rounded down to an even number: to the original value when it is even, to one less
  when it is odd.
\<close>

theorem sixty_minute_increments:
  assumes "0 \<le> seconds s" "seconds s < 60" "0 \<le> minutes_half s" "minutes_half s < 120"
  shows "minutes_half ((tick ^^ 3600) s) = minutes_half s - minutes_half s mod 2
       \<and> rollovers 3600 s = 1
       \<and> hours_half ((tick ^^ 3600) s) = (hours_half s + 2) smod 48
       \<and> seconds ((tick ^^ 3600) s) = seconds s"
  using one_hour_of_ticks [OF assms] by (simp add: clock_of_def)

theorem sixty_minute_increments_witness:
  "minutes_half ((tick ^^ 3600) ((setup_sketch True)\<lparr>minutes_half := 30\<rparr>)) = 30
   \<and> rollovers 3600 ((setup_sketch True)\<lparr>minutes_half := 30\<rparr>) = 1
   \<and> hours_half ((tick ^^ 3600) ((setup_sketch True)\<lparr>minutes_half := 30\<rparr>)) = 26
   \<and> minutes_half ((tick ^^ 3600) ((setup_sketch True)\<lparr>minutes_half := 119\<rparr>)) = 118"
proof -
  let ?s = "(setup_sketch True)\<lparr>minutes_half := 30\<rparr>"
  let ?t = "(setup_sketch True)\<lparr>minutes_half := 119\<rparr>"
  have s: "0 \<le> seconds ?s" "seconds ?s < 60" "0 \<le> minutes_half ?s" "minutes_half ?s < 120"
    and t: "0 \<le> seconds ?t" "seconds ?t < 60" "0 \<le> minutes_half ?t" "minutes_half ?t < 120"
    by (simp_all add: setup_sketch_def)
  have v: "minutes_half ?s = 30" "hours_half ?s = 24" "minutes_half ?t = 119"
    by (simp_all add: setup_sketch_def)
  show ?thesis
    using sixty_minute_increments [OF s] sixty_minute_increments [OF t]
    by (simp add: v smod_nonneg)
qed

subsection \<open>A starved loop\<close>

lemma tick_millis: "millis (tick s) = millis s \<or> millis (tick s) = millis s + 3450"
  by (simp add: tick_def Let_def minute_carry_def hour_carry_def hour_rollover_def
      selectAnimationByTime_keeps updateDisplay_obs triggerMotorBuzz_obs)

lemma tick_lastMillis: "lastMillis (tick s) = lastMillis s + 1000"
  by (simp add: tick_def Let_def minute_carry_def hour_carry_def
      selectAnimationByTime_keeps hour_rollover_clock constants)

lemma tick_seconds_le: "seconds (tick s) \<le> seconds s + 1"
  by (simp add: tick_def Let_def minute_carry_def hour_carry_def
      selectAnimationByTime_keeps hour_rollover_clock constants)

lemma backlog_sub:
  fixes x :: "32 word"
  assumes "1000 \<le> unat x"
  shows "unat (x - 1000) = unat x - 1000"
proof -
  have "(1000 :: 32 word) \<le> x" using assms by (simp add: word_le_nat_alt)
  then show ?thesis by (simp add: unat_sub)
qed

lemma backlog_sub_buzz:
  fixes x :: "32 word"
  assumes "1000 \<le> unat x" "unat x + 3450 < 2 ^ 32"
  shows "unat (x + 3450 - 1000) = unat x + 2450"
proof -
  have 1: "x + 3450 - 1000 = x + 2450" by simp
  have "unat (x + 2450) = unat x + unat (2450 :: 32 word)"
    using assms by (intro unat_add_lem [THEN iffD1]) simp
  then have 2: "unat (x + 2450) = unat x + 2450" by simp
  show ?thesis by (simp only: 1 2)
qed

lemma tick_backlog:
  assumes "1000 \<le> unat (millis s - lastMillis s)" "unat (millis s - lastMillis s) + 3450 < 2 ^ 32"
  shows "unat (millis s - lastMillis s) - 1000 \<le> unat (millis (tick s) - lastMillis (tick s))"
    and "unat (millis (tick s) - lastMillis (tick s)) \<le> unat (millis s - lastMillis s) + 2450"
proof -
  let ?x = "millis s - lastMillis s"
  have a: "millis s - (lastMillis s + 1000) = ?x - 1000"
    and b: "millis s + 3450 - (lastMillis s + 1000) = ?x + 3450 - 1000" by simp_all
  from tick_millis [of s]
  have "unat (millis (tick s) - lastMillis (tick s)) = unat ?x - 1000
      \<or> unat (millis (tick s) - lastMillis (tick s)) = unat ?x + 2450"
    using backlog_sub [OF assms(1)] backlog_sub_buzz [OF assms]
    by (auto simp only: tick_lastMillis a b)
  then show "unat ?x - 1000 \<le> unat (millis (tick s) - lastMillis (tick s))"
    and "unat (millis (tick s) - lastMillis (tick s)) \<le> unat ?x + 2450"
    by auto
qed

lemma updateTime_due: "1000 \<le> unat (millis s - lastMillis s) \<Longrightarrow> updateTime s = tick s"
  by (simp add: updateTime_def constants word_le_nat_alt)

lemma updateTime_backlog:
  assumes "1000 * k \<le> unat (millis s - lastMillis s)"
    and "unat (millis s - lastMillis s) + 3450 * k < 2 ^ 32"
  shows "(updateTime ^^ k) s = (tick ^^ k) s"
  using assms
proof (induction k arbitrary: s)
  case 0
  show ?case by simp
next
  case (Suc k)
  have due: "1000 \<le> unat (millis s - lastMillis s)" using Suc.prems(1) by simp
  have room: "unat (millis s - lastMillis s) + 3450 < 2 ^ 32" using Suc.prems(2) by simp
  have 1: "1000 * k \<le> unat (millis (tick s) - lastMillis (tick s))"
    using tick_backlog(1) [OF due room] Suc.prems(1) by simp
  have 2: "unat (millis (tick s) - lastMillis (tick s)) + 3450 * k < 2 ^ 32"
    using tick_backlog(2) [OF due room] Suc.prems(2) due by simp
  have "(updateTime ^^ Suc k) s = (updateTime ^^ k) (tick s)"
    by (simp add: funpow_swap1 updateTime_due [OF due])
  also have "\<dots> = (tick ^^ k) (tick s)" by (rule Suc.IH [OF 1 2])
  finally show ?case by (simp add: funpow_swap1)
qed

lemma ticks_lastMillis: "lastMillis ((tick ^^ k) s) = lastMillis s + 1000 * of_nat k"
  by (induction k) (simp_all add: tick_lastMillis algebra_simps)

text \<open>
  Claim C3, as stated: seconds missed by a starved loop are never made up. After 3000 ms
  without a call, the first call counts one second and leaves \<open>lastMillis\<close> at 1000; the
  next two calls, at the same instant, count the two missed seconds.
\<close>

theorem starved_seconds_counterexample:
  "seconds (updateTime (advance 3000 (setup_sketch True))) = 1
   \<and> lastMillis (updateTime (advance 3000 (setup_sketch True))) = 1000
   \<and> seconds (updateTime (updateTime (advance 3000 (setup_sketch True)))) = 2
   \<and> seconds (updateTime (updateTime (updateTime (advance 3000 (setup_sketch True))))) = 3"
proof -
  let ?s0 = "(setup_sketch True)\<lparr>millis := 3000\<rparr>"
  have 0: "advance 3000 (setup_sketch True) = ?s0"
    by (simp add: advance_def setup_sketch_def)
  have 1: "updateTime ?s0 = ?s0\<lparr>lastMillis := 1000, seconds := 1, animation_index := 6\<rparr>"
    by (simp add: updateTime_def tick_def minute_carry_def hour_carry_def
        selectAnimationByTime_def setup_sketch_def constants Let_def sdiv_nonneg)
  have 2: "updateTime (?s0\<lparr>lastMillis := 1000, seconds := 1, animation_index := 6\<rparr>)
      = ?s0\<lparr>lastMillis := 2000, seconds := 2, animation_index := 6\<rparr>"
    by (simp add: updateTime_def tick_def minute_carry_def hour_carry_def
        selectAnimationByTime_def setup_sketch_def constants Let_def sdiv_nonneg)
  have 3: "updateTime (?s0\<lparr>lastMillis := 2000, seconds := 2, animation_index := 6\<rparr>)
      = ?s0\<lparr>lastMillis := 3000, seconds := 3, animation_index := 6\<rparr>"
    by (simp add: updateTime_def tick_def minute_carry_def hour_carry_def
        selectAnimationByTime_def setup_sketch_def constants Let_def sdiv_nonneg)
  show ?thesis by (simp add: 0 1 2 3)
qed

text \<open>
  Claim C3, amended: each call of \<open>updateTime\<close> counts at most one second, and a processed
  boundary moves \<open>lastMillis\<close> on by exactly 1000, never to the current time, so the
  backlog stays and later calls make it up, one second per call: when at least \<open>1000 * k\<close> ms
  have passed since \<open>lastMillis\<close> (and the 32-bit difference is not about to wrap), each of
  the next \<open>k\<close> calls processes a boundary. After them the clock shows what \<open>k\<close> seconds
  do to it, carries and rollovers included; while no minute ends, \<open>seconds\<close> has grown by
  exactly \<open>k\<close> and minutes and hours are as before. No second is lost.
\<close>

theorem updateTime_catches_up:
  assumes "1000 * k \<le> unat (millis s - lastMillis s)"
    and "unat (millis s - lastMillis s) + 3450 * k < 2 ^ 32"
  shows "(updateTime ^^ k) s = (tick ^^ k) s
       \<and> lastMillis ((updateTime ^^ k) s) = lastMillis s + 1000 * of_nat k
       \<and> seconds (updateTime s) \<le> seconds s + 1
       \<and> clock_of ((updateTime ^^ k) s) (rollovers k s) = (clock_step ^^ k) (clock_of s 0)
       \<and> (seconds s + int k < 60 \<and> minutes_half s < 120 \<longrightarrow>
            seconds ((updateTime ^^ k) s) = seconds s + int k
            \<and> minutes_half ((updateTime ^^ k) s) = minutes_half s
            \<and> hours_half ((updateTime ^^ k) s) = hours_half s)"
proof -
  have run: "(updateTime ^^ k) s = (tick ^^ k) s"
    by (rule updateTime_backlog [OF assms])
  have clock: "clock_of ((tick ^^ k) s) (rollovers k s) = (clock_step ^^ k) (clock_of s 0)"
    using ticks_clock [of k s 0] by simp
  have plain: "seconds ((tick ^^ k) s) = seconds s + int k
       \<and> minutes_half ((tick ^^ k) s) = minutes_half s
       \<and> hours_half ((tick ^^ k) s) = hours_half s"
    if "seconds s + int k < 60" "minutes_half s < 120"
  proof -
    have "(clock_step ^^ k) (clock_of s 0) = (seconds s + int k, minutes_half s, hours_half s, 0)"
      unfolding clock_of_def using that by (rule seconds_run)
    with clock show ?thesis by (simp add: clock_of_def)
  qed
  have last: "lastMillis ((tick ^^ k) s) = lastMillis s + 1000 * of_nat k"
    by (rule ticks_lastMillis)
  have one: "seconds (updateTime s) \<le> seconds s + 1"
    using tick_seconds_le [of s] by (simp add: updateTime_def)
  show ?thesis
    unfolding run using clock plain last one by blast
qed

theorem updateTime_catches_up_witness:
  "1000 * 3 \<le> unat (millis (advance 3000 (setup_sketch True)) - lastMillis (advance 3000 (setup_sketch True)))
   \<and> (updateTime ^^ 3) (advance 3000 (setup_sketch True)) = (tick ^^ 3) (advance 3000 (setup_sketch True))
   \<and> lastMillis ((updateTime ^^ 3) (advance 3000 (setup_sketch True))) = 3000
   \<and> seconds ((updateTime ^^ 3) (advance 3000 (setup_sketch True))) = 3
   \<and> minutes_half ((updateTime ^^ 3) (advance 3000 (setup_sketch True))) = 0
   \<and> hours_half ((updateTime ^^ 3) (advance 3000 (setup_sketch True))) = 24"
proof -
  let ?s = "advance 3000 (setup_sketch True)"
  have a: "1000 * 3 \<le> unat (millis ?s - lastMillis ?s)"
    and b: "unat (millis ?s - lastMillis ?s) + 3450 * 3 < 2 ^ 32"
    and c: "lastMillis ?s = 0" "seconds ?s = 0" "minutes_half ?s = 0" "hours_half ?s = 24"
    by (simp_all add: advance_def setup_sketch_def)
  have d: "seconds ?s + int 3 < 60 \<and> minutes_half ?s < 120"
    by (simp add: c)
  from updateTime_catches_up [OF a b] d
  have r: "(updateTime ^^ 3) ?s = (tick ^^ 3) ?s"
    and l: "lastMillis ((updateTime ^^ 3) ?s) = lastMillis ?s + 1000 * of_nat 3"
    and e: "seconds ((updateTime ^^ 3) ?s) = seconds ?s + int 3"
      "minutes_half ((updateTime ^^ 3) ?s) = minutes_half ?s"
      "hours_half ((updateTime ^^ 3) ?s) = hours_half ?s"
    by blast+
  have l': "lastMillis ((updateTime ^^ 3) ?s) = 3000"
    by (simp only: l c) simp
  have e': "seconds ((updateTime ^^ 3) ?s) = 3" "minutes_half ((updateTime ^^ 3) ?s) = 0"
    "hours_half ((updateTime ^^ 3) ?s) = 24"
    by (simp_all only: e c)
  from a r l' e' show ?thesis by blast
qed

subsection \<open>The frame cursor\<close>

lemma loop_idle_draw:
  assumes "millis s + d - lastMillis s < 1000" and "lastCLK s" and "\<not> millis s + d - lastDraw s < 100"
  shows "loop True True True (advance d s) =
     s\<lparr>millis := millis s + d, lastDraw := millis s + d,
       trace := trace s @ [Draw (frame s) (hours_half s sdiv 2) (minutes_half s sdiv 2) (seconds s)],
       frame := (frame s + 1) smod 28 + animation_index s * 28\<rparr>"
  using assms
  by (simp add: loop_def updateTime_def readEncoder_def updateDisplay_def advance_def constants
      Let_def)

lemma nine_idle_iterations:
  "((\<lambda>s. loop True True True (advance 100 s)) ^^ 9) (setup_sketch True) =
     (setup_sketch True)\<lparr>millis := 900, lastDraw := 900, frame := 9,
       trace := [MotorWrite False, Draw 0 12 0 0, Draw 1 12 0 0, Draw 2 12 0 0, Draw 3 12 0 0,
          Draw 4 12 0 0, Draw 5 12 0 0, Draw 6 12 0 0, Draw 7 12 0 0, Draw 8 12 0 0]\<rparr>"
  by (simp add: funpow_9 loop_idle_draw setup_sketch_def sdiv_nonneg smod_nonneg)

text \<open>
  Claim C2: the frame drawn after \<open>selectAnimationByTime\<close> changed the animation belongs
  to the new animation's band. Evaluated on the sketch: with the loop running every 100 ms
  from 12:00:00, nine pictures show frames 0 to 8 of band 0; the tenth iteration counts the
  first second, \<open>selectAnimationByTime\<close> selects lunch (6) and leaves the cursor at 9, and
  \<open>updateDisplay\<close> draws frame 9, outside band 6; only then the cursor moves into band 6.
\<close>

theorem stale_frame_after_selection:
  "animation_index (updateTime (advance 100
       (((\<lambda>s. loop True True True (advance 100 s)) ^^ 9) (setup_sketch True)))) = 6
   \<and> frame (updateTime (advance 100
       (((\<lambda>s. loop True True True (advance 100 s)) ^^ 9) (setup_sketch True)))) = 9
   \<and> \<not> in_band 6 9
   \<and> trace (loop True True True (advance 100
       (((\<lambda>s. loop True True True (advance 100 s)) ^^ 9) (setup_sketch True))))
       = [MotorWrite False, Draw 0 12 0 0, Draw 1 12 0 0, Draw 2 12 0 0, Draw 3 12 0 0,
          Draw 4 12 0 0, Draw 5 12 0 0, Draw 6 12 0 0, Draw 7 12 0 0, Draw 8 12 0 0,
          Draw 9 12 0 1]
   \<and> in_band 6 (frame (loop True True True (advance 100
       (((\<lambda>s. loop True True True (advance 100 s)) ^^ 9) (setup_sketch True)))))"
proof -
  let ?s9 = "(setup_sketch True)\<lparr>millis := 900, lastDraw := 900, frame := 9,
       trace := [MotorWrite False, Draw 0 12 0 0, Draw 1 12 0 0, Draw 2 12 0 0, Draw 3 12 0 0,
          Draw 4 12 0 0, Draw 5 12 0 0, Draw 6 12 0 0, Draw 7 12 0 0, Draw 8 12 0 0]\<rparr>"
  let ?t = "?s9\<lparr>millis := 1000, lastMillis := 1000, seconds := 1, animation_index := 6\<rparr>"
  let ?u = "?t\<lparr>lastDraw := 1000, trace := trace ?s9 @ [Draw 9 12 0 1], frame := 178\<rparr>"
  have 9: "((\<lambda>s. loop True True True (advance 100 s)) ^^ 9) (setup_sketch True) = ?s9"
    by (rule nine_idle_iterations)
  have 1: "updateTime (advance 100 ?s9) = ?t"
    by (simp add: updateTime_def tick_def minute_carry_def hour_carry_def advance_def
        selectAnimationByTime_def setup_sketch_def constants Let_def sdiv_nonneg)
  have 2: "readEncoder True True True ?t = ?t"
    by (simp add: readEncoder_def setup_sketch_def Let_def)
  have 3: "updateDisplay ?t = ?u"
    by (simp add: updateDisplay_def setup_sketch_def constants sdiv_nonneg smod_nonneg)
  have 4: "loop True True True (advance 100 ?s9) = ?u"
    by (simp only: loop_def 1 2 3)
  have 5: "animation_index ?t = 6" "frame ?t = 9" "\<not> in_band 6 9" "in_band 6 (frame ?u)"
    "trace ?u = [MotorWrite False, Draw 0 12 0 0, Draw 1 12 0 0, Draw 2 12 0 0, Draw 3 12 0 0,
          Draw 4 12 0 0, Draw 5 12 0 0, Draw 6 12 0 0, Draw 7 12 0 0, Draw 8 12 0 0,
          Draw 9 12 0 1]"
    by (simp_all add: in_band_def constants)
  show ?thesis
    unfolding 9 4 1 using 5 by blast
qed

end
